theory Spec2Isabelle
  imports Main
begin

section \<open>The countdown engine of \<open>useRobustTimer.ts\<close>\<close>

text \<open>
  The composable \<open>useRobustTimer\<close> closes over three reactive cells
  (\<open>remainingMs\<close>, \<open>isRunning\<close>, \<open>isPaused\<close>) and three plain variables
  (\<open>deadline\<close>, \<open>timeoutId\<close>, \<open>pausedRemainingMs\<close>).  Its functions mutate them and talk to
  the host through \<open>Date.now()\<close>, \<open>window.setTimeout\<close>, \<open>clearTimeout\<close>, the
  \<open>visibilitychange\<close> listener and the optional \<open>onComplete\<close> callback.

  The embedding passes the state explicitly.  Milliseconds are \<open>int\<close> (the interface
  documents integer milliseconds and \<open>Date.now()\<close> returns an integer).  Every call of
  \<open>Date.now()\<close> is a separate argument of the function that makes it, in the order of
  the calls, so that two reads inside one handler may differ.  The host's table of active
  timeouts of this engine is the list \<open>pending\<close> of (id, delay) pairs, ids are handed out
  from the counter \<open>nextId\<close>, and \<open>completions\<close> counts the invocations of
  \<open>onComplete\<close>.  The callback is opaque: it is counted, and does not call back into the
  engine (the application's callback plays a sound).
\<close>

subsection \<open>Options and state\<close>

record UseRobustTimerOptions =
  durationMs :: int
  onComplete :: bool \<comment> \<open>whether a callback was supplied\<close>
  autoStart :: bool

record timer =
  options :: UseRobustTimerOptions
  remainingMs :: int
  isRunning :: bool
  isPaused :: bool
  deadline :: "int option"
  timeoutId :: "nat option"
  pausedRemainingMs :: "int option"
  pending :: "(nat \<times> int) list" \<comment> \<open>host: active timeouts whose callback is \<open>tick\<close>\<close>
  nextId :: nat \<comment> \<open>host: the id the next \<open>setTimeout\<close> returns\<close>
  completions :: nat \<comment> \<open>host: how often \<open>onComplete\<close> ran\<close>
  listening :: bool \<comment> \<open>host: the \<open>visibilitychange\<close> listener is registered\<close>

subsection \<open>The host's timeouts\<close>

definition setTimeout :: "int \<Rightarrow> timer \<Rightarrow> nat \<times> timer" where
  "setTimeout delay s =
     (nextId s, s\<lparr>pending := pending s @ [(nextId s, delay)], nextId := Suc (nextId s)\<rparr>)"

definition clearTimeout :: "nat \<Rightarrow> timer \<Rightarrow> timer" where
  "clearTimeout i s = s\<lparr>pending := filter (\<lambda>p. fst p \<noteq> i) (pending s)\<rparr>"

subsection \<open>The engine\<close>

text \<open>\<open>if (timeoutId !== null) { clearTimeout(timeoutId); timeoutId = null }\<close>\<close>

definition clearTimer :: "timer \<Rightarrow> timer" where
  "clearTimer s =
     (case timeoutId s of
        None \<Rightarrow> s
      | Some i \<Rightarrow> (clearTimeout i s)\<lparr>timeoutId := None\<rparr>)"

text \<open>\<open>clearTimer(); isRunning = false; isPaused = false; remainingMs = 0; onComplete?.()\<close>.
  The deadline is left as it is.\<close>

definition complete :: "timer \<Rightarrow> timer" where
  "complete s =
     (let s1 = (clearTimer s)\<lparr>isRunning := False, isPaused := False, remainingMs := 0\<rparr>
      in if onComplete (options s1) then s1\<lparr>completions := Suc (completions s1)\<rparr> else s1)"

text \<open>\<open>(left % 1000) || 1000\<close>.  The only caller passes \<open>left \<ge> 0\<close>, where the
  remainder of JavaScript and \<open>mod\<close> agree.\<close>

definition nextTickDelay :: "int \<Rightarrow> int" where
  "nextTickDelay left = (if left mod 1000 = 0 then 1000 else left mod 1000)"

text \<open>The guard \<open>if (!deadline) return\<close> is JavaScript truthiness: it returns for
  \<open>null\<close> and for the number \<open>0\<close>.  \<open>scheduleNext\<close> reads the clock itself
  (\<open>now\<close>) and does not call \<open>clearTimer\<close> before \<open>setTimeout\<close>.\<close>

definition scheduleNext :: "int \<Rightarrow> timer \<Rightarrow> timer" where
  "scheduleNext now s =
     (case deadline s of
        None \<Rightarrow> s
      | Some d \<Rightarrow>
          if d = 0 then s
          else
            let left = max 0 (d - now);
                (i, s1) = setTimeout (nextTickDelay left) s
            in s1\<lparr>timeoutId := Some i\<rparr>)"

text \<open>\<open>tick\<close> reads the clock (\<open>now\<close>); \<open>now'\<close> is the read of the
  \<open>scheduleNext\<close> it may call.\<close>

definition tick :: "int \<Rightarrow> int \<Rightarrow> timer \<Rightarrow> timer" where
  "tick now now' s =
     (case deadline s of
        None \<Rightarrow> s
      | Some d \<Rightarrow>
          if d = 0 then s
          else
            let left = max 0 (d - now);
                s1 = s\<lparr>remainingMs := left\<rparr>
            in if left \<le> 0 then complete s1 else scheduleNext now' s1)"

text \<open>\<open>hidden\<close> is the value of \<open>document.hidden\<close> when the handler runs.\<close>

definition handleVisibilityChange :: "bool \<Rightarrow> int \<Rightarrow> int \<Rightarrow> timer \<Rightarrow> timer" where
  "handleVisibilityChange hidden now now' s =
     (if hidden \<or> \<not> isRunning s then s else tick now now' s)"

text \<open>\<open>start\<close> reads the clock for the deadline (\<open>t\<close>) and then calls \<open>tick\<close>.\<close>

definition start :: "int \<Rightarrow> int \<Rightarrow> int \<Rightarrow> timer \<Rightarrow> timer" where
  "start t now now' s =
     (if isRunning s then s
      else
        let startDuration =
              (case pausedRemainingMs s of Some p \<Rightarrow> p | None \<Rightarrow> durationMs (options s))
        in tick now now'
             (s\<lparr>deadline := Some (t + startDuration), isRunning := True,
                isPaused := False, pausedRemainingMs := None\<rparr>))"

definition pause :: "timer \<Rightarrow> timer" where
  "pause s =
     (if \<not> isRunning s then s
      else
        let s1 = clearTimer s
        in s1\<lparr>pausedRemainingMs := Some (remainingMs s1), isRunning := False,
               isPaused := True, deadline := None\<rparr>)"

definition stop :: "timer \<Rightarrow> timer" where
  "stop s =
     (clearTimer s)\<lparr>isRunning := False, isPaused := False, deadline := None,
                     pausedRemainingMs := None,
                     remainingMs := durationMs (options s)\<rparr>"

definition reset :: "timer \<Rightarrow> timer" where
  "reset s = stop s"

text \<open>The \<open>onUnmounted\<close> hook: \<open>clearTimer()\<close> and \<open>removeEventListener\<close>.\<close>

definition unmount :: "timer \<Rightarrow> timer" where
  "unmount s = (clearTimer s)\<lparr>listening := False\<rparr>"

text \<open>The body of \<open>useRobustTimer\<close>: the cells are initialised, the listener is
  registered, and \<open>start()\<close> runs when \<open>autoStart\<close> is set.  There is no check of
  \<open>durationMs\<close> and no \<open>throw\<close>.  The three clock reads are those of the automatic
  \<open>start()\<close>.\<close>

definition useRobustTimer :: "UseRobustTimerOptions \<Rightarrow> int \<Rightarrow> int \<Rightarrow> int \<Rightarrow> timer" where
  "useRobustTimer opts t now now' =
     (let s = \<lparr>options = opts, remainingMs = durationMs opts, isRunning = False,
                isPaused = False, deadline = None, timeoutId = None,
                pausedRemainingMs = None, pending = [], nextId = 1, completions = 0,
                listening = True\<rparr>
      in if autoStart opts then start t now now' s else s)"

subsection \<open>Events\<close>

text \<open>
  What can happen to an engine: a call of its public interface, the host delivering a
  \<open>visibilitychange\<close> event (with the value of \<open>document.hidden\<close>), the host running
  the callback of an active timeout, and the unmount hook.  Events carry the clock reads
  of their handler.  A timeout is one-shot: it leaves the host's table when it runs, and
  since every \<open>setTimeout\<close> returns a fresh id it makes no difference to the resulting
  state that the model removes it before the callback.  The host chooses which active
  timeout runs and when; a timeout that is not in the table does not run.
\<close>

datatype event =
    Start int int int
  | Pause
  | Stop
  | Reset
  | VisibilityChange bool int int
  | Timeout nat int int
  | Unmount

fun step :: "timer \<Rightarrow> event \<Rightarrow> timer" where
  "step s (Start t now now') = start t now now' s"
| "step s Pause = pause s"
| "step s Stop = stop s"
| "step s Reset = reset s"
| "step s (VisibilityChange hidden now now') =
     (if listening s then handleVisibilityChange hidden now now' s else s)"
| "step s (Timeout i now now') =
     (if i \<in> fst ` set (pending s) then tick now now' (clearTimeout i s) else s)"
| "step s Unmount = unmount s"

definition run :: "timer \<Rightarrow> event list \<Rightarrow> timer" where
  "run s es = foldl step s es"

subsection \<open>Measurements on executions\<close>

text \<open>The options the application's view passes: a duration and a callback, with
  \<open>autoStart\<close> left at its default.\<close>

definition viewOptions :: "int \<Rightarrow> UseRobustTimerOptions" where
  "viewOptions D = \<lparr>durationMs = D, onComplete = True, autoStart = False\<rparr>"

text \<open>
  A wake-up is a run of the timeout's callback, which is \<open>tick\<close>; a resync is the
  visibility handler running while the page is visible.  \<open>observed\<close> lists the value of
  \<open>remainingMs\<close> after each of a sequence of them.
\<close>

datatype wake = Wakeup int int | Resync int int

fun wake_time :: "wake \<Rightarrow> int" where
  "wake_time (Wakeup now now') = now"
| "wake_time (Resync now now') = now"

fun wake_step :: "timer \<Rightarrow> wake \<Rightarrow> timer" where
  "wake_step s (Wakeup now now') = tick now now' s"
| "wake_step s (Resync now now') = handleVisibilityChange False now now' s"

fun observed :: "timer \<Rightarrow> wake list \<Rightarrow> int list" where
  "observed s [] = []"
| "observed s (w # ws) = remainingMs (wake_step s w) # observed (wake_step s w) ws"

text \<open>
  The running time of a timed execution: every event comes with the wall-clock time at
  which it happens, and the time between two events counts when \<open>isRunning\<close> holds
  between them.  \<open>t0\<close> is the time of the state \<open>s\<close>.
\<close>

fun runningTime :: "timer \<Rightarrow> int \<Rightarrow> (int \<times> event) list \<Rightarrow> int" where
  "runningTime s t0 [] = 0"
| "runningTime s t0 ((t, e) # es) =
     (if isRunning s then t - t0 else 0) + runningTime (step s e) t es"

text \<open>
  How the optional variables and the flags hang together in the states the engine
  reaches: the paused flag says whether a remaining time is captured, a running engine
  has a deadline, a deadline and a captured time never coexist, the captured time is the
  displayed one, and the displayed time is not negative when the duration is not.
\<close>

definition consistent :: "timer \<Rightarrow> bool" where
  "consistent s \<longleftrightarrow>
     (isPaused s \<longleftrightarrow> pausedRemainingMs s \<noteq> None) \<and>
     (isRunning s \<longrightarrow> deadline s \<noteq> None) \<and>
     (deadline s \<noteq> None \<longrightarrow> pausedRemainingMs s = None) \<and>
     (pausedRemainingMs s \<noteq> None \<longrightarrow> pausedRemainingMs s = Some (remainingMs s)) \<and>
     (0 \<le> durationMs (options s) \<longrightarrow> 0 \<le> remainingMs s)"

section \<open>Shared facts\<close>

lemmas engine_defs =
  useRobustTimer_def start_def pause_def stop_def reset_def unmount_def
  handleVisibilityChange_def tick_def scheduleNext_def complete_def clearTimer_def
  setTimeout_def clearTimeout_def nextTickDelay_def viewOptions_def

lemma run_Nil: "run s [] = s"
  by (simp add: run_def)

lemma run_Cons: "run s (e # es) = run (step s e) es"
  by (simp add: run_def)

lemma clearTimeout_fields [simp]:
  "options (clearTimeout i s) = options s"
  "remainingMs (clearTimeout i s) = remainingMs s"
  "isRunning (clearTimeout i s) = isRunning s"
  "isPaused (clearTimeout i s) = isPaused s"
  "deadline (clearTimeout i s) = deadline s"
  "pausedRemainingMs (clearTimeout i s) = pausedRemainingMs s"
  "timeoutId (clearTimeout i s) = timeoutId s"
  "completions (clearTimeout i s) = completions s"
  by (simp_all add: clearTimeout_def)

lemma clearTimer_fields [simp]:
  "options (clearTimer s) = options s"
  "remainingMs (clearTimer s) = remainingMs s"
  "isRunning (clearTimer s) = isRunning s"
  "isPaused (clearTimer s) = isPaused s"
  "deadline (clearTimer s) = deadline s"
  "pausedRemainingMs (clearTimer s) = pausedRemainingMs s"
  "timeoutId (clearTimer s) = None"
  "completions (clearTimer s) = completions s"
  "listening (clearTimer s) = listening s"
  by (simp_all add: clearTimer_def clearTimeout_def split: option.splits)

text \<open>A wake-up changes neither the options, nor the deadline, nor the captured time.\<close>

lemma tick_keeps [simp]:
  "options (tick now now' s) = options s"
  "deadline (tick now now' s) = deadline s"
  "pausedRemainingMs (tick now now' s) = pausedRemainingMs s"
  by (simp_all add: tick_def complete_def scheduleNext_def setTimeout_def Let_def
      split: option.splits)

subsection \<open>The states the engine reaches are consistent\<close>

lemma consistent_tick: "consistent s \<Longrightarrow> consistent (tick now now' s)"
  by (auto simp: consistent_def tick_def complete_def scheduleNext_def setTimeout_def Let_def
      split: option.splits)

lemma consistent_start:
  assumes "consistent s"
  shows "consistent (start t now now' s)"
proof (cases "isRunning s")
  case True
  then show ?thesis using assms by (simp add: start_def)
next
  case False
  have "consistent (s\<lparr>deadline := Some d, isRunning := True, isPaused := False,
      pausedRemainingMs := None\<rparr>)" for d
    using assms by (simp add: consistent_def)
  then show ?thesis using False by (simp add: start_def Let_def consistent_tick)
qed

lemma consistent_pause: "consistent s \<Longrightarrow> consistent (pause s)"
  by (auto simp: consistent_def pause_def Let_def)

lemma consistent_stop: "consistent s \<Longrightarrow> consistent (stop s)"
  by (auto simp: consistent_def stop_def)

lemma consistent_clearTimeout: "consistent s \<Longrightarrow> consistent (clearTimeout i s)"
  by (simp add: consistent_def)

lemma consistent_unmount: "consistent s \<Longrightarrow> consistent (unmount s)"
  by (simp add: consistent_def unmount_def)

lemma consistent_step: "consistent s \<Longrightarrow> consistent (step s e)"
  by (cases e)
    (simp_all add: consistent_start consistent_pause consistent_stop reset_def
      handleVisibilityChange_def consistent_tick consistent_clearTimeout consistent_unmount)

lemma consistent_run: "consistent s \<Longrightarrow> consistent (run s es)"
  by (induction es arbitrary: s) (simp_all add: run_Nil run_Cons consistent_step)

lemma consistent_useRobustTimer: "consistent (useRobustTimer opts t now now')"
proof -
  have "consistent \<lparr>options = opts, remainingMs = durationMs opts, isRunning = False,
      isPaused = False, deadline = None, timeoutId = None, pausedRemainingMs = None,
      pending = [], nextId = 1, completions = 0, listening = True\<rparr>"
    by (simp add: consistent_def)
  then show ?thesis by (simp add: useRobustTimer_def Let_def consistent_start)
qed

lemma options_step: "options (step s e) = options s"
  by (cases e) (simp_all add: start_def pause_def stop_def reset_def unmount_def
      handleVisibilityChange_def Let_def)

lemma options_run: "options (run s es) = options s"
  by (induction es arbitrary: s) (simp_all add: run_Nil run_Cons options_step)

lemma options_useRobustTimer: "options (useRobustTimer opts t now now') = opts"
  by (simp add: useRobustTimer_def start_def Let_def)

text \<open>In every state the engine reaches, a deadline and a captured remaining time are
  never both present (the first half of the data model's invariant).\<close>

lemma never_both:
  "\<not> (deadline (run (useRobustTimer opts t now now') es) \<noteq> None \<and>
      pausedRemainingMs (run (useRobustTimer opts t now now') es) \<noteq> None)"
  using consistent_run [OF consistent_useRobustTimer, of opts t now now' es]
  by (auto simp: consistent_def)

text \<open>What \<open>stop\<close> does to the engine's own variables, from any state whatever, and
  that a second \<open>stop\<close> changes nothing.\<close>

lemma stop_fields:
  "remainingMs (stop s) = durationMs (options s) \<and> \<not> isRunning (stop s) \<and>
   \<not> isPaused (stop s) \<and> deadline (stop s) = None \<and> pausedRemainingMs (stop s) = None \<and>
   timeoutId (stop s) = None"
  by (simp add: stop_def)

lemma stop_idempotent: "stop (stop s) = stop s"
  by (simp add: stop_def clearTimer_def clearTimeout_def split: option.splits)

section \<open>Outstanding wake-ups\<close>

text \<open>
  C1.  The claim: whenever a new wake-up is scheduled the previous one has been
  cancelled, so at most one wake-up is pending in every reachable state.  The code:
  \<open>scheduleNext\<close> calls \<open>setTimeout\<close> without \<open>clearTimer\<close>, so a resync while
  running adds a second timeout beside the one that is waiting.  Duration 3000,
  \<open>start()\<close> at time 0 schedules timeout 1 (delay 1000); the page becomes visible at
  time 1200, before timeout 1 has run, and the handler schedules timeout 2 (delay 800):
  two wake-ups are pending, and \<open>timeoutId\<close> remembers only the second.
\<close>

theorem resync_leaves_two_wakeups:
  "(let s = run (useRobustTimer (viewOptions 3000) 0 0 0) [Start 0 0 0];
        s' = step s (VisibilityChange False 1200 1200)
    in isRunning s \<and> pending s = [(1, 1000)] \<and> timeoutId s = Some 1 \<and>
       pending s' = [(1, 1000), (2, 800)] \<and> timeoutId s' = Some 2 \<and>
       length (pending s') = 2)"
  by (simp add: run_Cons run_Nil engine_defs Let_def)

section \<open>Completion\<close>

text \<open>
  C2.  The claim: within one cycle the completion callback runs exactly once, whatever
  wake-ups and resyncs are delivered.  The code: after the resync of C1 two chains of
  timeouts run side by side; \<open>complete\<close> cancels only the timeout in \<open>timeoutId\<close> and
  leaves the deadline set, so the other timeout still runs \<open>tick\<close>, finds the deadline
  passed and completes again.  Duration 3000, one \<open>start()\<close> at 0, resync at 1200,
  timeout 1 runs late at 1201, timeouts 2 and 3 run at 2000 and 2001 and schedule
  timeouts 4 (delay 1000) and 5 (delay 999); timeout 5 runs at 3000 and completes,
  timeout 4 runs at 3000 and completes a second time.
\<close>

theorem completion_callback_twice:
  "(let s = run (useRobustTimer (viewOptions 3000) 0 0 0)
              [Start 0 0 0, VisibilityChange False 1200 1200, Timeout 1 1201 1201,
               Timeout 2 2000 2000, Timeout 3 2001 2001, Timeout 5 3000 3000];
        s' = step s (Timeout 4 3000 3000)
    in completions s = 1 \<and> remainingMs s = 0 \<and> \<not> isRunning s \<and>
       pending s = [(4, 1000)] \<and> completions s' = 2)"
  by (simp add: run_Cons run_Nil engine_defs Let_def)

text \<open>
  C4.  The claim: a deadline and a captured remaining time are never both present, and
  in the idle and completed states both are null.  The first half holds
  (\<open>never_both\<close>), and both are null after construction and after \<open>stop\<close>
  (\<open>stop_fields\<close>).  But \<open>complete\<close>, unlike \<open>pause\<close> and \<open>stop\<close>, does not reset
  \<open>deadline\<close>: a countdown of 1000 started at 0 whose timeout runs at 1000 is completed,
  and its deadline is still 1000.
\<close>

theorem completed_keeps_deadline:
  "(let s = run (useRobustTimer (viewOptions 1000) 0 0 0) [Start 0 0 0, Timeout 1 1000 1000]
    in \<not> isRunning s \<and> \<not> isPaused s \<and> remainingMs s = 0 \<and> completions s = 1 \<and>
       pausedRemainingMs s = None \<and> deadline s = Some 1000)"
  by (simp add: run_Cons run_Nil engine_defs Let_def)

section \<open>Construction\<close>

text \<open>
  C3.  The claim: a non-positive \<open>durationMs\<close> is rejected at construction.  The code
  checks nothing: \<open>useRobustTimer\<close> has no failing branch, and with \<open>durationMs = -5\<close>
  it returns an engine whose remaining time is \<open>-5\<close>.
\<close>

theorem negative_duration_accepted:
  "remainingMs (useRobustTimer (viewOptions (- 5)) 0 0 0) = - 5 \<and>
   remainingMs (useRobustTimer (viewOptions (- 5)) 0 0 0) < 0"
  by (simp add: engine_defs)

text \<open>
  C3, as amended.  Construction accepts every \<open>durationMs\<close>.  Without \<open>autoStart\<close>
  the engine is idle and its remaining time is \<open>durationMs\<close> itself, negative when
  \<open>durationMs\<close> is.  With \<open>autoStart\<close> and a non-positive \<open>durationMs\<close> the deadline
  \<open>t + durationMs\<close> has passed when the first wake-up reads the clock (\<open>t \<le> now\<close>), so
  the engine is completed at once: remaining time 0, not running, the callback (when
  there is one) invoked once.  (A deadline of exactly 0 is skipped by the guard of
  \<open>tick\<close>.)
\<close>

theorem useRobustTimer_accepts_any_duration:
  "(\<not> autoStart opts \<longrightarrow>
      useRobustTimer opts t now now' =
        \<lparr>options = opts, remainingMs = durationMs opts, isRunning = False,
           isPaused = False, deadline = None, timeoutId = None, pausedRemainingMs = None,
           pending = [], nextId = 1, completions = 0, listening = True\<rparr>) \<and>
   (autoStart opts \<and> durationMs opts \<le> 0 \<and> t \<le> now \<and> t + durationMs opts \<noteq> 0 \<longrightarrow>
      remainingMs (useRobustTimer opts t now now') = 0 \<and>
      \<not> isRunning (useRobustTimer opts t now now') \<and>
      completions (useRobustTimer opts t now now') = (if onComplete opts then 1 else 0))"
  by (simp add: useRobustTimer_def start_def tick_def complete_def clearTimer_def Let_def)

theorem useRobustTimer_accepts_any_duration_witness:
  "remainingMs (useRobustTimer (viewOptions (- 5)) 0 0 0) = - 5 \<and>
   \<not> isRunning (useRobustTimer (viewOptions (- 5)) 0 0 0) \<and>
   remainingMs (useRobustTimer \<lparr>durationMs = 0, onComplete = True, autoStart = True\<rparr> 7 7 7) = 0 \<and>
   completions (useRobustTimer \<lparr>durationMs = 0, onComplete = True, autoStart = True\<rparr> 7 7 7) = 1"
proof -
  let ?auto = "\<lparr>durationMs = 0, onComplete = True, autoStart = True\<rparr>"
  have "\<not> autoStart (viewOptions (- 5))"
    by (simp add: viewOptions_def)
  then have "useRobustTimer (viewOptions (- 5)) 0 0 0 =
      \<lparr>options = viewOptions (- 5), remainingMs = durationMs (viewOptions (- 5)),
         isRunning = False, isPaused = False, deadline = None, timeoutId = None,
         pausedRemainingMs = None, pending = [], nextId = 1, completions = 0,
         listening = True\<rparr>"
    using useRobustTimer_accepts_any_duration [of "viewOptions (- 5)" 0 0 0] by blast
  then have idle: "remainingMs (useRobustTimer (viewOptions (- 5)) 0 0 0) = - 5 \<and>
      \<not> isRunning (useRobustTimer (viewOptions (- 5)) 0 0 0)"
    by (simp add: viewOptions_def)
  have "autoStart ?auto \<and> durationMs ?auto \<le> 0 \<and> (7::int) \<le> 7 \<and> 7 + durationMs ?auto \<noteq> 0"
    by simp
  then have "remainingMs (useRobustTimer ?auto 7 7 7) = 0 \<and>
      completions (useRobustTimer ?auto 7 7 7) = (if onComplete ?auto then 1 else 0)"
    using useRobustTimer_accepts_any_duration [of ?auto 7 7 7] by blast
  then show ?thesis using idle by simp
qed

section \<open>Wake-ups\<close>

text \<open>
  C5.  The claim: every wake-up, for any deadline and any time, sets the remaining time
  to \<open>max 0 (deadline - now)\<close> and, when that is not zero, schedules the next wake-up
  after exactly the remaining time modulo 1000 (1000 when that is zero).  Two things
  stand against it.  The guard \<open>if (!deadline) return\<close> takes the deadline 0 for no
  deadline: a countdown of 1000 started at time \<open>-1000\<close> has deadline 0, and a wake-up
  at \<open>-400\<close> leaves the remaining time at 1000 instead of 400 and schedules nothing.
  And \<open>scheduleNext\<close> computes the delay from a clock read of its own: a wake-up
  that reads 4999 and then 5000 against the deadline 5000 shows the remaining time 1 and
  schedules the next wake-up after 1000, not after 1.
\<close>

theorem wakeup_counterexample:
  "(let s = run (useRobustTimer (viewOptions 1000) 0 0 0) [Start (- 1000) (- 1000) (- 1000)]
    in deadline s = Some 0 \<and> tick (- 400) (- 400) s = s \<and>
       remainingMs (tick (- 400) (- 400) s) = 1000 \<and> max 0 (0 - (- 400)) = (400::int)) \<and>
   (let s = run (useRobustTimer (viewOptions 5000) 0 0 0) [Start 0 0 0, Timeout 1 4999 5000]
    in remainingMs s = 1 \<and> pending s = [(2, 1000)] \<and> (1::int) mod 1000 = 1)"
  by (simp add: run_Cons run_Nil engine_defs Let_def)

text \<open>
  C5, as amended.  For a deadline \<open>d\<close> other than 0, a wake-up that reads the clock
  as \<open>now\<close> sets the remaining time to \<open>max 0 (d - now)\<close>.  If that is zero it
  completes the countdown.  Otherwise it registers one new timeout, remembered in
  \<open>timeoutId\<close>, whose delay is \<open>left' mod 1000\<close>, or 1000 when that is zero, for
  \<open>left' = max 0 (d - now')\<close> with \<open>now'\<close> the clock read of \<open>scheduleNext\<close>; when both
  reads agree this is the displayed remaining time modulo 1000, or 1000.
\<close>

theorem tick_wakeup:
  assumes "deadline s = Some d" and "d \<noteq> 0"
  shows "remainingMs (tick now now' s) = max 0 (d - now) \<and>
    (max 0 (d - now) = 0 \<longrightarrow> tick now now' s = complete (s\<lparr>remainingMs := 0\<rparr>)) \<and>
    (max 0 (d - now) \<noteq> 0 \<longrightarrow>
       tick now now' s =
         s\<lparr>remainingMs := d - now,
           pending := pending s @
             [(nextId s,
               if max 0 (d - now') mod 1000 = 0 then 1000 else max 0 (d - now') mod 1000)],
           nextId := Suc (nextId s),
           timeoutId := Some (nextId s)\<rparr>) \<and>
    (max 0 (d - now) \<noteq> 0 \<longrightarrow>
       pending (tick now now s) =
         pending s @
           [(nextId s,
             if remainingMs (tick now now s) mod 1000 = 0 then 1000
             else remainingMs (tick now now s) mod 1000)])"
proof -
  have shown: "remainingMs (tick n n' s) = max 0 (d - n)" for n n'
    using assms
    by (simp add: tick_def complete_def scheduleNext_def setTimeout_def Let_def)
  have fin: "tick now now' s = complete (s\<lparr>remainingMs := 0\<rparr>)" if "max 0 (d - now) = 0"
    using assms that by (simp add: tick_def Let_def)
  have sched: "tick now n' s =
      s\<lparr>remainingMs := d - now,
        pending := pending s @
          [(nextId s, if max 0 (d - n') mod 1000 = 0 then 1000 else max 0 (d - n') mod 1000)],
        nextId := Suc (nextId s),
        timeoutId := Some (nextId s)\<rparr>" if "max 0 (d - now) \<noteq> 0" for n'
    using assms that
    by (simp add: tick_def scheduleNext_def setTimeout_def nextTickDelay_def Let_def max_def
        split: if_splits)
  have same: "pending (tick now now s) =
      pending s @
        [(nextId s,
          if remainingMs (tick now now s) mod 1000 = 0 then 1000
          else remainingMs (tick now now s) mod 1000)]" if "max 0 (d - now) \<noteq> 0"
    using that sched [of now] shown [of now now] by simp
  show ?thesis using shown fin sched same by blast
qed

theorem tick_wakeup_witness:
  "(let s = run (useRobustTimer (viewOptions 5000) 0 0 0) [Start 0 0 0]
    in deadline s = Some 5000 \<and>
       remainingMs (tick 1500 1500 s) = 3500 \<and>
       pending (tick 1500 1500 s) = pending s @ [(nextId s, 500)] \<and>
       remainingMs (tick 5000 5000 s) = 0 \<and>
       tick 5000 5000 s = complete (s\<lparr>remainingMs := 0\<rparr>))"
proof -
  let ?s = "run (useRobustTimer (viewOptions 5000) 0 0 0) [Start 0 0 0]"
  have d: "deadline ?s = Some 5000" and nz: "(5000::int) \<noteq> 0"
    by (simp_all add: run_Cons run_Nil engine_defs Let_def)
  have a: "remainingMs (tick 1500 1500 ?s) = 3500"
    using tick_wakeup [OF d nz, of 1500 1500] by simp
  have "pending (tick 1500 1500 ?s) =
      pending ?s @
        [(nextId ?s,
          if remainingMs (tick 1500 1500 ?s) mod 1000 = 0 then 1000
          else remainingMs (tick 1500 1500 ?s) mod 1000)]"
    using tick_wakeup [OF d nz, of 1500 1500] by simp
  then have b: "pending (tick 1500 1500 ?s) = pending ?s @ [(nextId ?s, 500)]"
    by (simp add: a)
  have zero: "max 0 (5000 - 5000) = (0::int)"
    by simp
  have "remainingMs (tick 5000 5000 ?s) = max 0 (5000 - 5000)"
    using tick_wakeup [OF d nz, of 5000 5000] by blast
  then have c: "remainingMs (tick 5000 5000 ?s) = 0"
    by simp
  have e: "tick 5000 5000 ?s = complete (?s\<lparr>remainingMs := 0\<rparr>)"
    using tick_wakeup [OF d nz, of 5000 5000] zero by blast
  show ?thesis unfolding Let_def using d a b c e by blast
qed

section \<open>Visibility changes\<close>

text \<open>
  C9.  A visibility-change signal that arrives while the page is hidden, or while the
  engine is not running (paused, idle or completed), changes no part of the state; only
  when the page is visible and the engine is running does the handler run the wake-up
  computation, which for a deadline other than 0 sets the remaining time to
  \<open>max 0 (deadline - now)\<close>.
\<close>

theorem handleVisibilityChange_frame:
  "(hidden \<or> \<not> isRunning s \<longrightarrow> handleVisibilityChange hidden now now' s = s) \<and>
   (\<not> hidden \<and> isRunning s \<longrightarrow>
      handleVisibilityChange hidden now now' s = tick now now' s \<and>
      (\<forall>d. deadline s = Some d \<and> d \<noteq> 0 \<longrightarrow>
         remainingMs (handleVisibilityChange hidden now now' s) = max 0 (d - now)))"
  by (auto simp: handleVisibilityChange_def tick_def complete_def clearTimer_def
      clearTimeout_def scheduleNext_def setTimeout_def Let_def split: option.splits)

theorem handleVisibilityChange_frame_witness:
  "handleVisibilityChange True 1200 1200 (run (useRobustTimer (viewOptions 3000) 0 0 0) [Start 0 0 0])
     = run (useRobustTimer (viewOptions 3000) 0 0 0) [Start 0 0 0] \<and>
   handleVisibilityChange False 1200 1200 (run (useRobustTimer (viewOptions 3000) 0 0 0) [])
     = run (useRobustTimer (viewOptions 3000) 0 0 0) [] \<and>
   remainingMs (handleVisibilityChange False 1200 1200
       (run (useRobustTimer (viewOptions 3000) 0 0 0) [Start 0 0 0])) = 1800"
proof -
  let ?idle = "run (useRobustTimer (viewOptions 3000) 0 0 0) []"
  let ?running = "run (useRobustTimer (viewOptions 3000) 0 0 0) [Start 0 0 0]"
  have idle: "\<not> isRunning ?idle"
    by (simp add: run_Nil engine_defs)
  have running: "isRunning ?running" and dl: "deadline ?running = Some 3000"
    by (simp_all add: run_Cons run_Nil engine_defs Let_def)
  have "handleVisibilityChange True 1200 1200 ?running = ?running"
    using handleVisibilityChange_frame [of True ?running 1200 1200] by blast
  moreover have "handleVisibilityChange False 1200 1200 ?idle = ?idle"
    using handleVisibilityChange_frame [of False ?idle 1200 1200] idle by blast
  moreover have "remainingMs (handleVisibilityChange False 1200 1200 ?running) = 1800"
  proof -
    have nz: "(3000::int) \<noteq> 0" by simp
    have "remainingMs (handleVisibilityChange False 1200 1200 ?running) = max 0 (3000 - 1200)"
      using handleVisibilityChange_frame [of False ?running 1200 1200] running dl nz by blast
    then show ?thesis by simp
  qed
  ultimately show ?thesis by blast
qed

section \<open>Pause and resume\<close>

text \<open>
  C6.  The claim: resuming a paused engine at time \<open>t\<close> sets the deadline to
  \<open>t + r\<close> for the captured time \<open>r\<close> and clears the capture, so that the total
  running time to completion equals the configured duration however long the pause
  lasted.  The first half holds.  The second does not: \<open>pause\<close> reads no clock and
  captures the displayed \<open>remainingMs\<close>, the value of the last wake-up.  A countdown of
  5000 is started at 0 and paused at 900, before its first wake-up: the captured time is
  5000.  Resumed at 10900 its deadline is 15900, and with every timeout running on
  time it completes at 15900, after having been running for 900 + 5000 = 5900.
\<close>

theorem running_time_counterexample:
  "(let es = [(0, Start 0 0 0), (900, Pause), (10900, Start 10900 10900 10900),
              (11900, Timeout 2 11900 11900), (12900, Timeout 3 12900 12900),
              (13900, Timeout 4 13900 13900), (14900, Timeout 5 14900 14900),
              (15900, Timeout 6 15900 15900)];
        s0 = useRobustTimer (viewOptions 5000) 0 0 0;
        s = run s0 (map snd es)
    in durationMs (options s) = 5000 \<and> completions s = 1 \<and> remainingMs s = 0 \<and>
       \<not> isRunning s \<and> runningTime s0 0 es = 5900)"
  by (simp add: run_Cons run_Nil engine_defs Let_def)

text \<open>
  C6, as amended.  For every paused engine with captured remaining time \<open>r\<close>,
  \<open>start\<close> at any time \<open>t\<close> sets the deadline to \<open>t + r\<close> and clears the capture,
  whatever the length of the pause.  The time \<open>pause\<close> captures is the \<open>remainingMs\<close>
  displayed when it is called, so a running engine paused and resumed at \<open>t\<close> gets
  the deadline \<open>t + remainingMs\<close>.
\<close>

theorem resume_deadline:
  "(\<not> isRunning s \<and> pausedRemainingMs s = Some r \<longrightarrow>
      deadline (start t now now' s) = Some (t + r) \<and>
      pausedRemainingMs (start t now now' s) = None) \<and>
   (isRunning s \<longrightarrow>
      pausedRemainingMs (pause s) = Some (remainingMs s) \<and> \<not> isRunning (pause s) \<and>
      deadline (start t now now' (pause s)) = Some (t + remainingMs s))"
  by (simp add: start_def pause_def Let_def)

theorem resume_deadline_witness:
  "(let s = run (useRobustTimer (viewOptions 1800000) 0 0 0)
              [Start 0 0 0, Timeout 1 1000 1000, Pause]
    in \<not> isRunning s \<and> pausedRemainingMs s = Some 1799000 \<and>
       deadline (start 6000 6000 6000 s) = Some 1805000 \<and>
       pausedRemainingMs (start 6000 6000 6000 s) = None) \<and>
   (let s = run (useRobustTimer (viewOptions 5000) 0 0 0) [Start 0 0 0]
    in isRunning s \<and> pausedRemainingMs (pause s) = Some 5000 \<and>
       deadline (start 10900 10900 10900 (pause s)) = Some 15900)"
proof -
  let ?p = "run (useRobustTimer (viewOptions 1800000) 0 0 0)
      [Start 0 0 0, Timeout 1 1000 1000, Pause]"
  let ?r = "run (useRobustTimer (viewOptions 5000) 0 0 0) [Start 0 0 0]"
  have p: "\<not> isRunning ?p" "pausedRemainingMs ?p = Some 1799000"
    by (simp_all add: run_Cons run_Nil engine_defs Let_def)
  have "deadline (start 6000 6000 6000 ?p) = Some (6000 + 1799000) \<and>
      pausedRemainingMs (start 6000 6000 6000 ?p) = None"
    using resume_deadline [of ?p 1799000 6000 6000 6000] p by blast
  then have a: "deadline (start 6000 6000 6000 ?p) = Some 1805000"
      "pausedRemainingMs (start 6000 6000 6000 ?p) = None"
    by simp_all
  have r: "isRunning ?r" "remainingMs ?r = 5000"
    by (simp_all add: run_Cons run_Nil engine_defs Let_def)
  have "pausedRemainingMs (pause ?r) = Some (remainingMs ?r) \<and>
      deadline (start 10900 10900 10900 (pause ?r)) = Some (10900 + remainingMs ?r)"
    using resume_deadline [of ?r _ 10900 10900 10900] r(1) by blast
  then have b: "pausedRemainingMs (pause ?r) = Some 5000"
      "deadline (start 10900 10900 10900 (pause ?r)) = Some 15900"
    by (simp_all add: r(2))
  show ?thesis unfolding Let_def using p a r(1) b by blast
qed

section \<open>Stop\<close>

text \<open>
  C7.  The claim: \<open>stop\<close>, from any state, resets the remaining time to the duration,
  clears both flags, the deadline and the captured time, and cancels any pending
  wake-up.  The engine's own variables are reset from every state and a second \<open>stop\<close>
  changes nothing (\<open>stop_fields\<close>, \<open>stop_idempotent\<close>).  But \<open>clearTimer\<close> cancels the
  one timeout in \<open>timeoutId\<close>: after the resync of C1 two wake-ups are pending, and
  \<open>stop\<close> leaves the first of them in the host's table.
\<close>

theorem stop_leaves_wakeup:
  "(let s = run (useRobustTimer (viewOptions 3000) 0 0 0)
              [Start 0 0 0, VisibilityChange False 1200 1200, Stop]
    in remainingMs s = 3000 \<and> \<not> isRunning s \<and> \<not> isPaused s \<and> deadline s = None \<and>
       pausedRemainingMs s = None \<and> timeoutId s = None \<and> pending s = [(1, 1000)])"
  by (simp add: run_Cons run_Nil engine_defs Let_def)

section \<open>Monotonicity\<close>

lemma wake_step_deadline [simp]: "deadline (wake_step s w) = deadline s"
  by (cases w) (simp_all add: handleVisibilityChange_def)

lemma wake_step_idle:
  "deadline s = None \<or> deadline s = Some 0 \<Longrightarrow> wake_step s w = s"
  by (cases w) (auto simp: handleVisibilityChange_def tick_def)

lemma tick_remaining:
  "deadline s = Some d \<Longrightarrow> d \<noteq> 0 \<Longrightarrow> remainingMs (tick now now' s) = max 0 (d - now)"
  by (simp add: tick_def complete_def scheduleNext_def setTimeout_def Let_def)

text \<open>A wake-up or resync either recomputes the remaining time from the deadline or, when
  the handler returns early, leaves it; on a running engine it recomputes.\<close>

lemma wake_step_remaining:
  assumes "deadline s = Some d" and "d \<noteq> 0"
  shows "remainingMs (wake_step s w) = max 0 (d - wake_time w) \<or>
         remainingMs (wake_step s w) = remainingMs s"
  using assms by (cases w) (simp_all add: handleVisibilityChange_def tick_remaining)

lemma wake_step_running:
  assumes "deadline s = Some d" and "d \<noteq> 0" and "isRunning s"
  shows "remainingMs (wake_step s w) = max 0 (d - wake_time w)"
  using assms by (cases w) (simp_all add: handleVisibilityChange_def tick_remaining)

lemma observed_idle:
  "deadline s = None \<or> deadline s = Some 0 \<Longrightarrow>
   sorted_wrt (\<lambda>x y. y \<le> x) (observed s ws) \<and> (\<forall>x \<in> set (observed s ws). x = remainingMs s)"
  by (induction ws) (auto simp: wake_step_idle)

text \<open>Once the displayed time is that of an earlier clock read \<open>t\<close>, everything observed
  later is below it and in descending order.\<close>

lemma observed_below:
  assumes "deadline s = Some d" and "d \<noteq> 0"
    and "remainingMs s = max 0 (d - t)"
    and "sorted (map wake_time ws)"
    and "\<forall>w \<in> set ws. t \<le> wake_time w"
  shows "sorted_wrt (\<lambda>x y. y \<le> x) (observed s ws) \<and>
         (\<forall>x \<in> set (observed s ws). x \<le> remainingMs s)"
  using assms
proof (induction ws arbitrary: s t)
  case Nil
  then show ?case by simp
next
  case (Cons w ws)
  let ?s' = "wake_step s w"
  have dl: "deadline ?s' = Some d"
    using Cons.prems(1) by simp
  have le: "t \<le> wake_time w"
    using Cons.prems(5) by simp
  have later: "\<forall>v \<in> set ws. wake_time w \<le> wake_time v"
    using Cons.prems(4) by simp
  have srt: "sorted (map wake_time ws)"
    using Cons.prems(4) by simp
  from wake_step_remaining [OF Cons.prems(1,2), of w]
  obtain t' where t': "remainingMs ?s' = max 0 (d - t')" "\<forall>v \<in> set ws. t' \<le> wake_time v"
      "t \<le> t'"
  proof
    assume a: "remainingMs ?s' = max 0 (d - wake_time w)"
    show thesis using that [of "wake_time w"] a later le by blast
  next
    assume a: "remainingMs ?s' = remainingMs s"
    have "\<forall>v \<in> set ws. t \<le> wake_time v" using Cons.prems(5) by simp
    then show thesis using that [of t] a Cons.prems(3) by simp
  qed
  have IH: "sorted_wrt (\<lambda>x y. y \<le> x) (observed ?s' ws) \<and>
      (\<forall>x \<in> set (observed ?s' ws). x \<le> remainingMs ?s')"
    using Cons.IH [OF dl Cons.prems(2) t'(1) srt t'(2)] .
  have down: "remainingMs ?s' \<le> remainingMs s"
    using t'(1,3) Cons.prems(3) by simp
  show ?case using IH down by auto
qed

lemma observed_running:
  assumes "isRunning s" and "sorted (map wake_time ws)"
  shows "sorted_wrt (\<lambda>x y. y \<le> x) (observed s ws)"
proof (cases "deadline s = None \<or> deadline s = Some 0")
  case True
  then show ?thesis using observed_idle by blast
next
  case False
  then obtain d where d: "deadline s = Some d" "d \<noteq> 0" by auto
  show ?thesis
  proof (cases ws)
    case Nil
    then show ?thesis by simp
  next
    case (Cons w ws')
    let ?s' = "wake_step s w"
    have "deadline ?s' = Some d" using d by simp
    moreover have "remainingMs ?s' = max 0 (d - wake_time w)"
      using wake_step_running [OF d assms(1)] .
    moreover have "sorted (map wake_time ws')" "\<forall>v \<in> set ws'. wake_time w \<le> wake_time v"
      using assms(2) Cons by simp_all
    ultimately have "sorted_wrt (\<lambda>x y. y \<le> x) (observed ?s' ws') \<and>
        (\<forall>x \<in> set (observed ?s' ws'). x \<le> remainingMs ?s')"
      using observed_below [of ?s' d "wake_time w" ws'] d(2) by blast
    then show ?thesis using Cons by auto
  qed
qed

lemma resume_below:
  assumes "consistent s" and "0 \<le> durationMs (options s)"
    and "pausedRemainingMs s = Some r" and "t \<le> now"
  shows "remainingMs (start t now now' s) \<le> r"
proof -
  have nr: "\<not> isRunning s" and rem: "remainingMs s = r" and pos: "0 \<le> r"
    using assms(1,2,3) by (auto simp: consistent_def)
  let ?s1 = "s\<lparr>deadline := Some (t + r), isRunning := True, isPaused := False,
      pausedRemainingMs := None\<rparr>"
  have st: "start t now now' s = tick now now' ?s1"
    using nr assms(3) by (simp add: start_def Let_def)
  show ?thesis
  proof (cases "t + r = 0")
    case True
    then have "tick now now' ?s1 = ?s1" by (simp add: tick_def)
    then show ?thesis using st rem by simp
  next
    case False
    then have "remainingMs (tick now now' ?s1) = max 0 (t + r - now)"
      by (simp add: tick_remaining)
    then show ?thesis using st pos assms(4) by simp
  qed
qed

text \<open>
  C8.  On a running engine, whose deadline no wake-up changes, the values of
  \<open>remainingMs\<close> observed after each of a sequence of wake-ups and resyncs whose clock
  reads do not decrease are in descending order.  And in every state the engine reaches
  from its construction with a non-negative duration, if a remaining time \<open>r\<close> is
  captured then resuming, with a clock that does not run backwards between the two reads
  of \<open>start\<close>, leaves a remaining time of at most \<open>r\<close>.
\<close>

theorem remainingMs_monotone:
  "(isRunning s \<and> sorted (map wake_time ws) \<longrightarrow>
      sorted_wrt (\<lambda>x y. y \<le> x) (observed s ws)) \<and>
   (0 \<le> durationMs opts \<and>
    pausedRemainingMs (run (useRobustTimer opts t0 n0 n0') es) = Some r \<and> t \<le> now \<longrightarrow>
      remainingMs (start t now now' (run (useRobustTimer opts t0 n0 n0') es)) \<le> r)"
  using observed_running [of s ws]
    resume_below [OF consistent_run [OF consistent_useRobustTimer],
      of opts t0 n0 n0' es r t now now']
  by (simp add: options_run options_useRobustTimer)

theorem remainingMs_monotone_witness:
  "observed (run (useRobustTimer (viewOptions 5000) 0 0 0) [Start 0 0 0])
      [Wakeup 1000 1000, Resync 1500 1500, Wakeup 6000 6000, Resync 6100 6100]
     = [4000, 3500, 0, 0] \<and>
   sorted_wrt (\<lambda>x y. y \<le> x)
     (observed (run (useRobustTimer (viewOptions 5000) 0 0 0) [Start 0 0 0])
        [Wakeup 1000 1000, Resync 1500 1500, Wakeup 6000 6000, Resync 6100 6100]) \<and>
   pausedRemainingMs (run (useRobustTimer (viewOptions 5000) 0 0 0)
       [Start 0 0 0, Timeout 1 1000 1000, Pause]) = Some 4000 \<and>
   remainingMs (start 9000 9001 9001 (run (useRobustTimer (viewOptions 5000) 0 0 0)
       [Start 0 0 0, Timeout 1 1000 1000, Pause])) \<le> 4000"
proof -
  let ?s = "run (useRobustTimer (viewOptions 5000) 0 0 0) [Start 0 0 0]"
  let ?ws = "[Wakeup 1000 1000, Resync 1500 1500, Wakeup 6000 6000, Resync 6100 6100]"
  let ?es = "[Start 0 0 0, Timeout 1 1000 1000, Pause]"
  have vals: "observed ?s ?ws = [4000, 3500, 0, 0]"
    by (simp add: run_Cons run_Nil engine_defs Let_def)
  have "isRunning ?s \<and> sorted (map wake_time ?ws)"
    by (simp add: run_Cons run_Nil engine_defs Let_def)
  then have a: "sorted_wrt (\<lambda>x y. y \<le> x) (observed ?s ?ws)"
    using remainingMs_monotone [of ?s ?ws] by blast
  have p: "pausedRemainingMs (run (useRobustTimer (viewOptions 5000) 0 0 0) ?es) = Some 4000"
    by (simp add: run_Cons run_Nil engine_defs Let_def)
  have "0 \<le> durationMs (viewOptions 5000) \<and> (9000::int) \<le> 9001"
    by (simp add: viewOptions_def)
  then have b: "remainingMs (start 9000 9001 9001
      (run (useRobustTimer (viewOptions 5000) 0 0 0) ?es)) \<le> 4000"
    using remainingMs_monotone [of _ _ "viewOptions 5000" 0 0 0 ?es 4000 9000 9001 9001] p
    by blast
  show ?thesis using vals a p b by blast
qed

section \<open>Starting again after completion\<close>

text \<open>
  C10.  The claim: after a countdown has completed, \<open>start\<close> with no \<open>stop\<close> in
  between begins a fresh full-duration cycle: the deadline is the clock read plus
  \<open>durationMs\<close>, \<open>isRunning\<close> becomes true and \<open>isPaused\<close> false.  The deadline is
  set so, but \<open>start\<close> then runs the first wake-up at once, and that reads the clock
  again.  A countdown of 1 ms has completed; \<open>start\<close> reads 10 for the deadline, which
  is 11, and the wake-up reads 11: the countdown completes again on the spot, the engine
  is not running, no wake-up is armed and the callback has run a second time.
\<close>

theorem restart_completes_again:
  "(let s = run (useRobustTimer (viewOptions 1) 0 0 0) [Start 0 0 0, Timeout 1 1 1];
        s' = start 10 11 11 s
    in \<not> isRunning s \<and> \<not> isPaused s \<and> remainingMs s = 0 \<and> completions s = 1 \<and>
       deadline s' = Some 11 \<and> \<not> isRunning s' \<and> remainingMs s' = 0 \<and> pending s' = [] \<and>
       completions s' = 2)"
  by (simp add: run_Cons run_Nil engine_defs Let_def)

text \<open>
  C10, as amended.  In a state the engine has reached that is neither running nor
  paused, as the completed state is, no remaining time is captured.  So \<open>start\<close>, read
  \<open>t\<close> on the clock, sets the deadline \<open>d = t + durationMs\<close>, the running flag, and
  clears the paused flag; then the first wake-up reads the clock as \<open>now\<close>.  If \<open>d\<close>
  is not 0 and lies ahead of \<open>now\<close>, the remaining time becomes \<open>d - now\<close> and one
  timeout is registered and remembered, with the delay \<open>scheduleNext\<close> computes from
  its own read \<open>now'\<close>; nothing else changes.  If \<open>d\<close> is not 0 and has passed, the
  countdown completes again at once.  If \<open>d\<close> is 0 the wake-up returns early: the
  engine counts as running, with the remaining time it had and no timeout.  When all
  three reads agree and the duration is positive (and \<open>d\<close> is not 0) this is the fresh
  cycle of the claim: running, the full \<open>durationMs\<close> remaining, and the first timeout
  due after \<open>nextTickDelay durationMs\<close>.
\<close>

theorem restart_after_completion:
  assumes "s = run (useRobustTimer opts t0 n0 n0') es"
    and "\<not> isRunning s" and "\<not> isPaused s"
  shows "pausedRemainingMs s = None \<and>
    (let d = t + durationMs opts;
         s1 = s\<lparr>deadline := Some d, isRunning := True, isPaused := False,
                pausedRemainingMs := None\<rparr>
     in (d \<noteq> 0 \<and> now < d \<longrightarrow>
           start t now now' s =
             s1\<lparr>remainingMs := d - now,
                pending := pending s @ [(nextId s, nextTickDelay (max 0 (d - now')))],
                nextId := Suc (nextId s),
                timeoutId := Some (nextId s)\<rparr>) \<and>
        (d \<noteq> 0 \<and> d \<le> now \<longrightarrow>
           start t now now' s = complete (s1\<lparr>remainingMs := 0\<rparr>) \<and>
           \<not> isRunning (start t now now' s) \<and> remainingMs (start t now now' s) = 0 \<and>
           completions (start t now now' s)
             = (if onComplete opts then Suc (completions s) else completions s)) \<and>
        (d = 0 \<longrightarrow> start t now now' s = s1)) \<and>
    (0 < durationMs opts \<and> t + durationMs opts \<noteq> 0 \<longrightarrow>
       isRunning (start t t t s) \<and> \<not> isPaused (start t t t s) \<and>
       deadline (start t t t s) = Some (t + durationMs opts) \<and>
       remainingMs (start t t t s) = durationMs opts \<and>
       timeoutId (start t t t s) = Some (nextId s) \<and>
       pending (start t t t s) = pending s @ [(nextId s, nextTickDelay (durationMs opts))])"
proof -
  have c: "consistent s" and o: "options s = opts"
    using assms(1) by (simp_all add: consistent_run consistent_useRobustTimer options_run
        options_useRobustTimer)
  have p: "pausedRemainingMs s = None"
    using c assms(3) by (simp add: consistent_def)
  define d where "d = t + durationMs opts"
  define s1 where "s1 = s\<lparr>deadline := Some d, isRunning := True, isPaused := False,
      pausedRemainingMs := None\<rparr>"
  have st: "start t n n' s = tick n n' s1" for n n'
    using assms(2) p o by (simp add: start_def Let_def s1_def d_def)
  have dl: "deadline s1 = Some d"
    by (simp add: s1_def)
  have ahead: "tick n n' s1 =
      s1\<lparr>remainingMs := d - n,
         pending := pending s @ [(nextId s, nextTickDelay (max 0 (d - n')))],
         nextId := Suc (nextId s),
         timeoutId := Some (nextId s)\<rparr>" if "d \<noteq> 0" "n < d" for n n'
    using that dl
    by (simp add: tick_def scheduleNext_def setTimeout_def Let_def s1_def)
  have passed: "tick now now' s1 = complete (s1\<lparr>remainingMs := 0\<rparr>)" if "d \<noteq> 0" "d \<le> now"
    using that dl by (simp add: tick_def Let_def)
  have passed_fields: "\<not> isRunning (complete (s1\<lparr>remainingMs := 0\<rparr>)) \<and>
      remainingMs (complete (s1\<lparr>remainingMs := 0\<rparr>)) = 0 \<and>
      completions (complete (s1\<lparr>remainingMs := 0\<rparr>))
        = (if onComplete opts then Suc (completions s) else completions s)"
    using o by (simp add: complete_def Let_def s1_def)
  have zero: "tick now now' s1 = s1" if "d = 0"
    using that dl by (simp add: tick_def)
  have fresh: "isRunning (start t t t s) \<and> \<not> isPaused (start t t t s) \<and>
       deadline (start t t t s) = Some (t + durationMs opts) \<and>
       remainingMs (start t t t s) = durationMs opts \<and>
       timeoutId (start t t t s) = Some (nextId s) \<and>
       pending (start t t t s) = pending s @ [(nextId s, nextTickDelay (durationMs opts))]"
    if "0 < durationMs opts" "t + durationMs opts \<noteq> 0"
  proof -
    have "d \<noteq> 0" "t < d" using that by (simp_all add: d_def)
    from ahead [OF this, of t] that(1) show ?thesis
      by (simp add: st s1_def d_def)
  qed
  show ?thesis
    unfolding Let_def d_def [symmetric] s1_def [symmetric]
    using p st ahead passed passed_fields zero fresh by (simp add: d_def)
qed

theorem restart_after_completion_witness:
  "(let s = run (useRobustTimer (viewOptions 1000) 0 0 0) [Start 0 0 0, Timeout 1 1000 1000]
    in remainingMs s = 0 \<and> completions s = 1 \<and> pausedRemainingMs s = None \<and>
       isRunning (start 2000 2000 2000 s) \<and>
       deadline (start 2000 2000 2000 s) = Some 3000 \<and>
       remainingMs (start 2000 2000 2000 s) = 1000 \<and>
       pending (start 2000 2000 2000 s) = [(2, 1000)] \<and>
       remainingMs (start 2000 2300 2301 s) = 700 \<and>
       pending (start 2000 2300 2301 s) = [(2, 699)] \<and>
       isRunning (start 2000 2300 2301 s) = True \<and>
       isRunning (start 2000 3000 3000 s) = False \<and>
       completions (start 2000 3000 3000 s) = 2 \<and>
       deadline (start (- 1000) 5 5 s) = Some 0 \<and>
       remainingMs (start (- 1000) 5 5 s) = 0 \<and>
       pending (start (- 1000) 5 5 s) = [])"
proof -
  let ?s = "run (useRobustTimer (viewOptions 1000) 0 0 0) [Start 0 0 0, Timeout 1 1000 1000]"
  have fin: "remainingMs ?s = 0" "completions ?s = 1" "\<not> isRunning ?s" "\<not> isPaused ?s"
      "pending ?s = []" "nextId ?s = 2"
    by (simp_all add: run_Cons run_Nil engine_defs Let_def)
  have o: "durationMs (viewOptions 1000) = 1000" "onComplete (viewOptions 1000)"
    by (simp_all add: viewOptions_def)
  note th = restart_after_completion [OF refl fin(3,4), unfolded Let_def o]
  have a: "pausedRemainingMs ?s = None"
    using th [of 0 0 0] by blast
  have "isRunning (start 2000 2000 2000 ?s) \<and> \<not> isPaused (start 2000 2000 2000 ?s) \<and>
      deadline (start 2000 2000 2000 ?s) = Some (2000 + 1000) \<and>
      remainingMs (start 2000 2000 2000 ?s) = 1000 \<and>
      timeoutId (start 2000 2000 2000 ?s) = Some (nextId ?s) \<and>
      pending (start 2000 2000 2000 ?s) = pending ?s @ [(nextId ?s, nextTickDelay 1000)]"
    using th [of 2000 0 0] by simp
  then have b: "isRunning (start 2000 2000 2000 ?s)"
      "deadline (start 2000 2000 2000 ?s) = Some 3000"
      "remainingMs (start 2000 2000 2000 ?s) = 1000"
      "pending (start 2000 2000 2000 ?s) = [(2, 1000)]"
    unfolding fin(5,6) by (simp_all add: nextTickDelay_def)
  have "start 2000 2300 2301 ?s =
      ?s\<lparr>deadline := Some (2000 + 1000), isRunning := True, isPaused := False,
          pausedRemainingMs := None, remainingMs := 2000 + 1000 - 2300,
          pending := pending ?s @ [(nextId ?s, nextTickDelay (max 0 (2000 + 1000 - 2301)))],
          nextId := Suc (nextId ?s), timeoutId := Some (nextId ?s)\<rparr>"
    using th [of 2000 2300 2301] by simp
  then have c: "remainingMs (start 2000 2300 2301 ?s) = 700"
      "pending (start 2000 2300 2301 ?s) = [(2, 699)]"
      "isRunning (start 2000 2300 2301 ?s) = True"
    unfolding fin(5,6) by (simp_all add: nextTickDelay_def)
  have late: "(2000::int) + 1000 \<noteq> 0 \<and> (2000::int) + 1000 \<le> 3000"
    by simp
  have twice: "(if onComplete (viewOptions 1000) then Suc (completions ?s) else completions ?s) = 2"
    unfolding fin(2) by (simp add: viewOptions_def)
  have "\<not> isRunning (start 2000 3000 3000 ?s) \<and>
      completions (start 2000 3000 3000 ?s)
        = (if onComplete (viewOptions 1000) then Suc (completions ?s) else completions ?s)"
    using th [of 2000 3000 3000] late by blast
  then have d: "isRunning (start 2000 3000 3000 ?s) = False"
      "completions (start 2000 3000 3000 ?s) = 2"
    unfolding twice by simp_all
  have "start (- 1000) 5 5 ?s =
      ?s\<lparr>deadline := Some (- 1000 + 1000), isRunning := True, isPaused := False,
          pausedRemainingMs := None\<rparr>"
    using th [of "- 1000" 5 5] by simp
  then have e: "deadline (start (- 1000) 5 5 ?s) = Some 0"
      "remainingMs (start (- 1000) 5 5 ?s) = 0"
      "pending (start (- 1000) 5 5 ?s) = []"
    using fin(1,5) by simp_all
  show ?thesis unfolding Let_def using fin(1,2) a b c d e by blast
qed

end
